theory Spec2Isabelle
  imports Main "HOL-Library.AList"
begin

section \<open>Package reconciliation: \<^verbatim>\<open>resolve_module_packages\<close>\<close>

text \<open>
  Content units are identified by their primary key. The tables and relations the
  function queries through the ORM are gathered in one record:
  \<^item> \<open>pulp_type\<close>: the \<^verbatim>\<open>pulp_type\<close> column of a content unit;
  \<^item> \<open>modulemd_objects\<close>: the rows of \<^verbatim>\<open>Modulemd.objects\<close>;
  \<^item> \<open>package_objects\<close>: the rows of \<^verbatim>\<open>Package.objects\<close>;
  \<^item> \<open>packages\<close>: \<^verbatim>\<open>module.packages.all()\<close> of a module.
\<close>

type_synonym pk = nat

record database =
  pulp_type :: "pk \<Rightarrow> string"
  modulemd_objects :: "pk list"
  package_objects :: "pk list"
  packages :: "pk \<Rightarrow> pk list"

text \<open>
  A repository version under construction: its content, and the calls made on it so far
  (\<^verbatim>\<open>remove_content\<close>, \<^verbatim>\<open>add_content\<close>), each with the rows of the
  queryset it was given.
\<close>

datatype store_call = Remove_content "pk list" | Add_content "pk list"

record repository_version =
  content :: "pk set"
  calls :: "store_call list"

text \<open>
  Modelled from the spec: \<^verbatim>\<open>RepositoryVersion.remove_content\<close> and
  \<^verbatim>\<open>RepositoryVersion.add_content\<close> belong to the content store, which is not part
  of the sources. The spec gives them as accumulation operations on a version under
  construction: the given content leaves, respectively joins, the content of the version.
\<close>

definition remove_content :: "repository_version \<Rightarrow> pk list \<Rightarrow> repository_version" where
  "remove_content version qs =
     version\<lparr>content := content version - set qs,
             calls := calls version @ [Remove_content qs]\<rparr>"

definition add_content :: "repository_version \<Rightarrow> pk list \<Rightarrow> repository_version" where
  "add_content version qs =
     version\<lparr>content := content version \<union> set qs,
             calls := calls version @ [Add_content qs]\<rparr>"

text \<open>\<^verbatim>\<open>version.content.filter(pulp_type=t)\<close>\<close>

definition content_filter :: "database \<Rightarrow> repository_version \<Rightarrow> string \<Rightarrow> pk set" where
  "content_filter db version t = Set.filter (\<lambda>c. pulp_type db c = t) (content version)"

text \<open>\<^verbatim>\<open>Modulemd.objects.filter(pk__in=version.content.filter(pulp_type="rpm.modulemd"))\<close>\<close>

definition modulemd_filter :: "database \<Rightarrow> repository_version \<Rightarrow> pk list" where
  "modulemd_filter db version =
     filter (\<lambda>m. m \<in> content_filter db version ''rpm.modulemd'') (modulemd_objects db)"

text \<open>\<^verbatim>\<open>Package.objects.filter(pk__in=s)\<close> for a Python set \<open>s\<close> of packages.\<close>

definition package_filter :: "database \<Rightarrow> pk set \<Rightarrow> pk list" where
  "package_filter db s = filter (\<lambda>p. p \<in> s) (package_objects db)"

text \<open>\<^verbatim>\<open>QuerySet.difference\<close>: the rows of the first queryset that are not rows of the second.\<close>

definition difference :: "pk list \<Rightarrow> pk list \<Rightarrow> pk list" where
  "difference qs other = remdups (filter (\<lambda>m. m \<notin> set other) qs)"

text \<open>
  The inner function \<^verbatim>\<open>modules_packages\<close>: the loop starts from the empty set and
  updates it with the packages of each module in turn.
\<close>

definition modules_packages :: "database \<Rightarrow> pk list \<Rightarrow> pk set" where
  "modules_packages db modules =
     fold (\<lambda>module acc. acc \<union> set (packages db module)) modules {}"

text \<open>
  The Python function returns nothing and mutates \<open>version\<close>. The model returns the
  version after the call together with the local variables the claims speak about;
  \<open>packages_to_remove\<close> is \<open>None\<close> when the branch that computes it did not run.
\<close>

record resolution =
  version_out :: repository_version
  added_modules :: "pk list"
  packages_to_remove :: "pk set option"
  current_packages :: "pk set"
  packages_to_add :: "pk set"

text \<open>Lines 42 to 45, common to both branches.\<close>

definition add_pass ::
  "database \<Rightarrow> repository_version \<Rightarrow> pk list \<Rightarrow> pk set option \<Rightarrow> resolution" where
  "add_pass db version added to_remove =
     (let added_module_packages = modules_packages db added;
          current = content_filter db version ''rpm.package'';
          to_add = added_module_packages - current
      in \<lparr>version_out = add_content version (package_filter db to_add),
          added_modules = added,
          packages_to_remove = to_remove,
          current_packages = current,
          packages_to_add = to_add\<rparr>)"

text \<open>The removal pass, lines 31 to 38, run only when there is a previous version.\<close>

definition removal_set :: "database \<Rightarrow> pk list \<Rightarrow> pk list \<Rightarrow> pk set" where
  "removal_set db current_modules previous_modules =
     (let removed_modules = difference previous_modules current_modules;
          current_module_packages = modules_packages db current_modules;
          removed_module_packages = modules_packages db removed_modules
      in removed_module_packages - current_module_packages)"

definition resolve_module_packages ::
  "database \<Rightarrow> repository_version \<Rightarrow> repository_version option \<Rightarrow> resolution" where
  "resolve_module_packages db version previous_version =
     (let current_modules = modulemd_filter db version
      in case previous_version of
           Some previous \<Rightarrow>
             (let previous_modules = modulemd_filter db previous;
                  added = difference current_modules previous_modules;
                  to_remove = removal_set db current_modules previous_modules;
                  version1 = remove_content version (package_filter db to_remove)
              in add_pass db version1 added (Some to_remove))
         | None \<Rightarrow> add_pass db version current_modules None)"

section \<open>Snippet materialisation: \<^verbatim>\<open>_create_snippet\<close>\<close>

text \<open>
  The function works on the file system of the working directory, a map from path to
  the text of the file. What the operating system decides at each call is an input of
  the model: the name \<^verbatim>\<open>tempfile.NamedTemporaryFile\<close> picks, and which step of the call
  fails, if any (\<open>Write_fault k\<close>: the write fails after \<open>k\<close> characters reached the file).
  The choices are numbered by the \<open>clock\<close> of the world, which counts the temporary
  files requested so far, so that a caller who materialises several snippets meets one
  choice per call.
\<close>

type_synonym filesystem = "string \<rightharpoonup> string"

datatype fault = No_fault | Tempfile_fault | Open_fault | Write_fault nat | Validate_fault

record io_choice =
  tmp_name :: string
  fault :: fault

record world =
  files :: filesystem
  clock :: nat

text \<open>
  The exceptions of the source: \<open>NotFound\<close> is the error raised when
  \<^verbatim>\<open>get_module\<close> gives no module and a method is called on the result;
  \<open>IOFailure\<close> is any failure of creating, opening, writing or validating the file.
\<close>

datatype error = NotFound | IOFailure

record artifact =
  artifact_file :: string
  sha256 :: string

section \<open>The metadata index consumed by the decomposer\<close>

text \<open>
  The objects of the metadata library, each a record of what its getters return:
  a dependency clause, a module stream (\<^verbatim>\<open>s.props.*\<close> and its getters), a defaults
  object, a module and the index. The default streams of the index are a dictionary,
  kept as an association list in the order of its keys.
\<close>

record dependencies =
  get_runtime_modules :: "string list"
  get_runtime_streams :: "string \<Rightarrow> string list"

record module_stream =
  props_module_name :: string
  props_stream_name :: string
  props_version :: nat
  props_context :: string
  props_arch :: string
  get_rpm_artifacts :: "string list"
  get_dependencies :: "dependencies list"

record defaults =
  get_default_stream :: string
  get_default_profiles_for_stream :: "string \<Rightarrow> string list"

record modulemd_module =
  get_module_name :: string
  get_all_streams :: "module_stream list"
  get_defaults :: "defaults option"

record module_index =
  get_module :: "string \<Rightarrow> modulemd_module option"
  get_default_streams :: "(string \<times> string) list"

text \<open>
  Library functions the source calls and does not define, taken as parameters:
  \<^item> \<open>hexdigest\<close>: the SHA-256 digest of a text;
  \<^item> \<open>encode_basestring_ascii\<close>: the JSON encoding of one string, quotes included;
  \<^item> \<open>dump_stream\<close>: \<^verbatim>\<open>dump_to_string()\<close> of a new index holding one stream;
  \<^item> \<open>dump_defaults\<close>: \<^verbatim>\<open>dump_to_string()\<close> of a new index holding one defaults object.
\<close>

record library =
  hexdigest :: "string \<Rightarrow> string"
  encode_basestring_ascii :: "string \<Rightarrow> string"
  dump_stream :: "module_stream \<Rightarrow> string"
  dump_defaults :: "defaults \<Rightarrow> string"

text \<open>
  Modelled from the spec: \<^verbatim>\<open>Artifact.init_and_validate\<close> belongs to the content store,
  which is not part of the sources. The spec gives the ingestion as returning a handle with
  the location and the strong content hash of the bytes found there.
\<close>

definition init_and_validate :: "library \<Rightarrow> filesystem \<Rightarrow> string \<Rightarrow> error + artifact" where
  "init_and_validate lib fs path =
     (case fs path of
        None \<Rightarrow> Inl IOFailure
      | Some text \<Rightarrow> Inr \<lparr>artifact_file = path, sha256 = hexdigest lib text\<rparr>)"

text \<open>
  \<^verbatim>\<open>_create_snippet\<close>: the temporary file is created empty under a name that is not taken
  (\<^verbatim>\<open>delete=False\<close>: closing it does not delete it), opened again for writing, written,
  and handed to \<^verbatim>\<open>Artifact.init_and_validate\<close> by name. No step of the function removes
  the file.
\<close>

definition create_snippet ::
  "library \<Rightarrow> (nat \<Rightarrow> io_choice) \<Rightarrow> string \<Rightarrow> world \<Rightarrow> (error + artifact) \<times> world" where
  "create_snippet lib env snippet_string w =
     (let choice = env (clock w);
          name = tmp_name choice;
          w0 = w\<lparr>clock := Suc (clock w)\<rparr>
      in if fault choice = Tempfile_fault \<or> files w name \<noteq> None then (Inl IOFailure, w0)
         else
           (let w1 = w0\<lparr>files := (files w)(name \<mapsto> [])\<rparr>
            in case fault choice of
                 Open_fault \<Rightarrow> (Inl IOFailure, w1)
               | Write_fault k \<Rightarrow>
                   (Inl IOFailure, w1\<lparr>files := (files w1)(name \<mapsto> take k snippet_string)\<rparr>)
               | _ \<Rightarrow>
                   (let w2 = w1\<lparr>files := (files w1)(name \<mapsto> snippet_string)\<rparr>
                    in if fault choice = Validate_fault then (Inl IOFailure, w2)
                       else (init_and_validate lib (files w2) name, w2))))"

section \<open>Decomposition: \<^verbatim>\<open>parse_modulemd\<close> and \<^verbatim>\<open>parse_defaults\<close>\<close>

text \<open>
  \<^verbatim>\<open>json.dumps\<close> with its default separators, for the two shapes the source gives it:
  a list of strings, and a dictionary from strings to lists of strings. A Python
  dictionary keeps its keys in insertion order, so it is an association list here.
\<close>

fun join :: "string \<Rightarrow> string list \<Rightarrow> string" where
  "join sep [] = []"
| "join sep [x] = x"
| "join sep (x # y # ys) = x @ sep @ join sep (y # ys)"

definition json_dumps_list :: "library \<Rightarrow> string list \<Rightarrow> string" where
  "json_dumps_list lib xs = ''['' @ join '', '' (map (encode_basestring_ascii lib) xs) @ '']''"

definition json_dumps_dict :: "library \<Rightarrow> (string \<times> string list) list \<Rightarrow> string" where
  "json_dumps_dict lib d =
     ''{'' @ join '', ''
        (map (\<lambda>(k, v). encode_basestring_ascii lib k @ '': '' @ json_dumps_list lib v) d) @ ''}''"

text \<open>
  Modelled from the spec: the keys \<^verbatim>\<open>PULP_MODULE_ATTR\<close> and
  \<^verbatim>\<open>PULP_MODULEDEFAULTS_ATTR\<close> are constants of \<^verbatim>\<open>pulp_rpm.app.constants\<close>, which is
  not part of the sources. The spec lists the attribute names (name, stream, version,
  context, arch, artifacts, dependencies; module, stream, profiles, digest); they differ
  from each other and from the literal key \<^verbatim>\<open>artifact\<close>, so each dictionary the source
  builds is a record with one field per key.
\<close>

record modulemd_dict =
  MODULE_ATTR_NAME :: string
  MODULE_ATTR_STREAM :: string
  MODULE_ATTR_VERSION :: nat
  MODULE_ATTR_CONTEXT :: string
  MODULE_ATTR_ARCH :: string
  MODULE_ATTR_ARTIFACTS :: string
  MODULE_ATTR_DEPENDENCIES :: string
  modulemd_artifact :: artifact

record defaults_dict =
  MODULEDEFAULTS_ATTR_MODULE :: string
  MODULEDEFAULTS_ATTR_STREAM :: string
  MODULEDEFAULTS_ATTR_PROFILES :: string
  MODULEDEFAULTS_ATTR_DIGEST :: string
  defaults_artifact :: artifact

text \<open>
  Lines 89 to 93: the inner loop assigns, for each runtime module of one clause, the
  runtime streams of that clause; the outer loop runs over the clauses in order, starting
  from the empty dictionary. An assignment to a key that is present replaces its value.
\<close>

definition clause_update ::
  "dependencies \<Rightarrow> (string \<times> string list) list \<Rightarrow> (string \<times> string list) list" where
  "clause_update dep d =
     fold (\<lambda>dependency acc. AList.update dependency (get_runtime_streams dep dependency) acc)
       (get_runtime_modules dep) d"

definition stream_dependencies :: "dependencies list \<Rightarrow> (string \<times> string list) list" where
  "stream_dependencies dependencies_list = fold clause_update dependencies_list []"

text \<open>Lines 80 to 99: the dictionary appended for one stream.\<close>

definition stream_dict :: "library \<Rightarrow> module_stream \<Rightarrow> artifact \<Rightarrow> modulemd_dict" where
  "stream_dict lib s a =
     \<lparr>MODULE_ATTR_NAME = props_module_name s,
      MODULE_ATTR_STREAM = props_stream_name s,
      MODULE_ATTR_VERSION = props_version s,
      MODULE_ATTR_CONTEXT = props_context s,
      MODULE_ATTR_ARCH = props_arch s,
      MODULE_ATTR_ARTIFACTS = json_dumps_list lib (get_rpm_artifacts s),
      MODULE_ATTR_DEPENDENCIES = json_dumps_dict lib (stream_dependencies (get_dependencies s)),
      modulemd_artifact = a\<rparr>"

text \<open>The inner loop of \<^verbatim>\<open>parse_modulemd\<close>, over the streams of one module.\<close>

fun parse_streams ::
  "library \<Rightarrow> (nat \<Rightarrow> io_choice) \<Rightarrow> module_stream list \<Rightarrow> world \<Rightarrow> modulemd_dict list
     \<Rightarrow> (error + modulemd_dict list) \<times> world" where
  "parse_streams lib env [] w ret = (Inr ret, w)"
| "parse_streams lib env (s # ss) w ret =
     (case create_snippet lib env (dump_stream lib s) w of
        (Inl e, w') \<Rightarrow> (Inl e, w')
      | (Inr a, w') \<Rightarrow> parse_streams lib env ss w' (ret @ [stream_dict lib s a]))"

text \<open>The outer loop, over the module names.\<close>

fun parse_modules ::
  "library \<Rightarrow> (nat \<Rightarrow> io_choice) \<Rightarrow> module_index \<Rightarrow> string list \<Rightarrow> world \<Rightarrow> modulemd_dict list
     \<Rightarrow> (error + modulemd_dict list) \<times> world" where
  "parse_modules lib env idx [] w ret = (Inr ret, w)"
| "parse_modules lib env idx (m # ms) w ret =
     (case get_module idx m of
        None \<Rightarrow> (Inl NotFound, w)
      | Some h \<Rightarrow>
          (case parse_streams lib env (get_all_streams h) w ret of
             (Inl e, w') \<Rightarrow> (Inl e, w')
           | (Inr ret', w') \<Rightarrow> parse_modules lib env idx ms w' ret'))"

definition parse_modulemd ::
  "library \<Rightarrow> (nat \<Rightarrow> io_choice) \<Rightarrow> string list \<Rightarrow> module_index \<Rightarrow> world
     \<Rightarrow> (error + modulemd_dict list) \<times> world" where
  "parse_modulemd lib env module_names idx w = parse_modules lib env idx module_names w []"

text \<open>Lines 122 to 134: the dictionary appended for a module whose defaults are present.\<close>

definition defaults_record :: "library \<Rightarrow> modulemd_module \<Rightarrow> defaults \<Rightarrow> artifact \<Rightarrow> defaults_dict" where
  "defaults_record lib modulemd d a =
     (let default_stream = get_default_stream d;
          default_profile = get_default_profiles_for_stream d default_stream
      in \<lparr>MODULEDEFAULTS_ATTR_MODULE = get_module_name modulemd,
          MODULEDEFAULTS_ATTR_STREAM = default_stream,
          MODULEDEFAULTS_ATTR_PROFILES = json_dumps_list lib default_profile,
          MODULEDEFAULTS_ATTR_DIGEST = sha256 a,
          defaults_artifact = a\<rparr>)"

text \<open>The loop of \<^verbatim>\<open>parse_defaults\<close>, over the keys of the default streams.\<close>

fun parse_defaults_loop ::
  "library \<Rightarrow> (nat \<Rightarrow> io_choice) \<Rightarrow> module_index \<Rightarrow> string list \<Rightarrow> world \<Rightarrow> defaults_dict list
     \<Rightarrow> (error + defaults_dict list) \<times> world" where
  "parse_defaults_loop lib env idx [] w ret = (Inr ret, w)"
| "parse_defaults_loop lib env idx (m # ms) w ret =
     (case get_module idx m of
        None \<Rightarrow> (Inl NotFound, w)
      | Some modulemd \<Rightarrow>
          (case get_defaults modulemd of
             None \<Rightarrow> parse_defaults_loop lib env idx ms w ret
           | Some d \<Rightarrow>
               (case create_snippet lib env (dump_defaults lib d) w of
                  (Inl e, w') \<Rightarrow> (Inl e, w')
                | (Inr a, w') \<Rightarrow>
                    parse_defaults_loop lib env idx ms w' (ret @ [defaults_record lib modulemd d a]))))"

definition parse_defaults ::
  "library \<Rightarrow> (nat \<Rightarrow> io_choice) \<Rightarrow> module_index \<Rightarrow> world \<Rightarrow> (error + defaults_dict list) \<times> world" where
  "parse_defaults lib env idx w =
     parse_defaults_loop lib env idx (map fst (get_default_streams idx)) w []"

section \<open>Predicates for stating the properties\<close>

text \<open>
  \<open>env_ok env taken k n\<close>: the next \<open>n\<close> requests for a temporary file, numbered from
  \<open>k\<close>, meet no fault and are given names that are not among \<open>taken\<close> and differ from
  each other. This is what a run in which every snippet is written needs from the
  operating system.
\<close>

fun env_ok :: "(nat \<Rightarrow> io_choice) \<Rightarrow> string set \<Rightarrow> nat \<Rightarrow> nat \<Rightarrow> bool" where
  "env_ok env taken k 0 = True"
| "env_ok env taken k (Suc n) =
     (fault (env k) = No_fault \<and> tmp_name (env k) \<notin> taken
      \<and> env_ok env (insert (tmp_name (env k)) taken) (Suc k) n)"

text \<open>
  The streams the index reports for a list of module names, in the order of the names
  and then of the index; \<open>record_of\<close> relates a dictionary of the result to the stream it
  was built from (the artifact holds the digest of the snippet of that stream alone).
\<close>

definition streams_of :: "module_index \<Rightarrow> string \<Rightarrow> module_stream list" where
  "streams_of idx m = (case get_module idx m of None \<Rightarrow> [] | Some h \<Rightarrow> get_all_streams h)"

definition all_streams :: "module_index \<Rightarrow> string list \<Rightarrow> module_stream list" where
  "all_streams idx module_names = concat (map (streams_of idx) module_names)"

definition record_of :: "library \<Rightarrow> modulemd_dict \<Rightarrow> module_stream \<Rightarrow> bool" where
  "record_of lib r s \<longleftrightarrow>
     r = stream_dict lib s
           \<lparr>artifact_file = artifact_file (modulemd_artifact r),
            sha256 = hexdigest lib (dump_stream lib s)\<rparr>"

definition has_defaults :: "module_index \<Rightarrow> string \<Rightarrow> bool" where
  "has_defaults idx m =
     (case get_module idx m of None \<Rightarrow> False | Some h \<Rightarrow> get_defaults h \<noteq> None)"

definition resolves :: "module_index \<Rightarrow> string \<Rightarrow> bool" where
  "resolves idx m =
     (case get_module idx m of None \<Rightarrow> False | Some h \<Rightarrow> get_module_name h = m)"

section \<open>Concrete inputs\<close>

text \<open>
  The first end-to-end scenario of the specification: the previous version holds module
  101, which owns packages 201 and 202; the next version holds module 102, which owns
  packages 202 and 203, and still holds the packages carried over.
\<close>

definition scenario_db :: database where
  "scenario_db =
     \<lparr>pulp_type = (\<lambda>c. if c < 200 then ''rpm.modulemd'' else ''rpm.package''),
      modulemd_objects = [101, 102],
      package_objects = [201, 202, 203],
      packages = (\<lambda>m. if m = 101 then [201, 202] else if m = 102 then [202, 203] else [])\<rparr>"

definition scenario_previous :: repository_version where
  "scenario_previous = \<lparr>content = {101, 201, 202}, calls = []\<rparr>"

definition scenario_next :: repository_version where
  "scenario_next = \<lparr>content = {102, 201, 202}, calls = []\<rparr>"

text \<open>A previous version with the same module as the next one, and other packages.\<close>

definition scenario_same :: repository_version where
  "scenario_same = \<lparr>content = {102, 203}, calls = []\<rparr>"

text \<open>
  Stand-ins for the library functions, an operating system that meets no fault and one
  whose writes fail after two characters, and two file systems.
\<close>

definition demo_library :: library where
  "demo_library =
     \<lparr>hexdigest = (\<lambda>t. ''sha256 of '' @ t),
      encode_basestring_ascii = (\<lambda>t. CHR 0x22 # t @ [CHR 0x22]),
      dump_stream = (\<lambda>s. ''stream '' @ props_module_name s @ '':'' @ props_stream_name s),
      dump_defaults = (\<lambda>d. ''defaults '' @ get_default_stream d)\<rparr>"

definition demo_env :: "nat \<Rightarrow> io_choice" where
  "demo_env i = \<lparr>tmp_name = ''tmp'' @ replicate i (CHR ''x''), fault = No_fault\<rparr>"

definition failing_env :: "nat \<Rightarrow> io_choice" where
  "failing_env i = \<lparr>tmp_name = ''tmp'' @ replicate i (CHR ''x''), fault = Write_fault 2\<rparr>"

definition empty_world :: world where
  "empty_world = \<lparr>files = Map.empty, clock = 0\<rparr>"

definition other_world :: world where
  "other_world = \<lparr>files = [''tmp'' \<mapsto> ''old''], clock = 1\<rparr>"

text \<open>
  The second end-to-end scenario of the specification: module gorilla with a stream
  stable, which has one artifact and two dependency clauses that both name platform, and
  a stream unstable without artifacts. The index also lists a default stream for a module
  ghost that carries no defaults object.
\<close>

definition platform_first :: dependencies where
  "platform_first =
     \<lparr>get_runtime_modules = [''platform''],
      get_runtime_streams = (\<lambda>m. if m = ''platform'' then [''f26''] else [])\<rparr>"

definition platform_last :: dependencies where
  "platform_last =
     \<lparr>get_runtime_modules = [''platform'', ''perl''],
      get_runtime_streams =
        (\<lambda>m. if m = ''platform'' then [''f27'', ''f28''] else if m = ''perl'' then [''5.26''] else [])\<rparr>"

definition gorilla_stable :: module_stream where
  "gorilla_stable =
     \<lparr>props_module_name = ''gorilla'', props_stream_name = ''stable'', props_version = 1,
      props_context = ''c0'', props_arch = ''noarch'',
      get_rpm_artifacts = [''gorilla-1.0.rpm''],
      get_dependencies = [platform_first, platform_last]\<rparr>"

definition gorilla_unstable :: module_stream where
  "gorilla_unstable =
     \<lparr>props_module_name = ''gorilla'', props_stream_name = ''unstable'', props_version = 2,
      props_context = ''c0'', props_arch = ''noarch'',
      get_rpm_artifacts = [],
      get_dependencies = []\<rparr>"

definition gorilla_defaults :: defaults where
  "gorilla_defaults =
     \<lparr>get_default_stream = ''stable'',
      get_default_profiles_for_stream = (\<lambda>s. if s = ''stable'' then [''default''] else [])\<rparr>"

definition demo_index :: module_index where
  "demo_index =
     \<lparr>get_module =
        (\<lambda>m. if m = ''gorilla''
              then Some \<lparr>get_module_name = ''gorilla'',
                         get_all_streams = [gorilla_stable, gorilla_unstable],
                         get_defaults = Some gorilla_defaults\<rparr>
              else if m = ''ghost''
              then Some \<lparr>get_module_name = ''ghost'', get_all_streams = [], get_defaults = None\<rparr>
              else None),
      get_default_streams = [(''ghost'', ''1''), (''gorilla'', ''stable'')]\<rparr>"

section \<open>Properties of the reconciliation\<close>

lemma modules_packages_fold:
  "fold (\<lambda>module acc. acc \<union> set (packages db module)) modules s =
     s \<union> (\<Union>m \<in> set modules. set (packages db m))"
  by (induction modules arbitrary: s) auto

lemma modules_packages_Union:
  "modules_packages db modules = (\<Union>m \<in> set modules. set (packages db m))"
  by (simp add: modules_packages_def modules_packages_fold)


lemma set_package_filter: "set (package_filter db s) = s \<inter> set (package_objects db)"
  by (auto simp: package_filter_def)

lemma resolve_Some:
  "resolve_module_packages db version (Some previous) =
     add_pass db
       (remove_content version
          (package_filter db (removal_set db (modulemd_filter db version) (modulemd_filter db previous))))
       (difference (modulemd_filter db version) (modulemd_filter db previous))
       (Some (removal_set db (modulemd_filter db version) (modulemd_filter db previous)))"
  by (simp add: resolve_module_packages_def Let_def)

lemma resolve_None:
  "resolve_module_packages db version None = add_pass db version (modulemd_filter db version) None"
  by (simp add: resolve_module_packages_def)

lemma removal_set_eq:
  "removal_set db cur prev =
     modules_packages db (difference prev cur) - modules_packages db cur"
  by (simp add: removal_set_def Let_def)

lemma add_pass_sel:
  "version_out (add_pass db v added r) =
     add_content v (package_filter db (modules_packages db added - content_filter db v ''rpm.package''))"
  "added_modules (add_pass db v added r) = added"
  "packages_to_remove (add_pass db v added r) = r"
  "current_packages (add_pass db v added r) = content_filter db v ''rpm.package''"
  "packages_to_add (add_pass db v added r) =
     modules_packages db added - content_filter db v ''rpm.package''"
  by (simp_all add: add_pass_def Let_def)



lemma content_add_content: "content (add_content v qs) = content v \<union> set qs"
  by (simp add: add_content_def)

lemma content_remove_content: "content (remove_content v qs) = content v - set qs"
  by (simp add: remove_content_def)

lemma calls_add_content: "calls (add_content v qs) = calls v @ [Add_content qs]"
  by (simp add: add_content_def)

lemma calls_remove_content: "calls (remove_content v qs) = calls v @ [Remove_content qs]"
  by (simp add: remove_content_def)


lemma scenario_modules:
  "modulemd_filter scenario_db scenario_next = [102]"
  "modulemd_filter scenario_db scenario_previous = [101]"
  "modulemd_filter scenario_db scenario_same = [102]"
  by (simp_all add: modulemd_filter_def content_filter_def scenario_db_def scenario_next_def
      scenario_previous_def scenario_same_def)


text \<open>
  Claim C1 (conservation). With a previous version, \<open>packages_to_remove\<close> is the set of
  packages reachable from the removed modules minus the set of packages reachable from the
  modules of the version under construction. Hence a package reachable from a module
  present in the next version is never in \<open>packages_to_remove\<close>, also when a removed
  module reaches it, and it stays in the version if it was there.
\<close>

theorem resolve_conservation:
  "packages_to_remove (resolve_module_packages db version (Some previous)) =
     Some (modules_packages db (difference (modulemd_filter db previous) (modulemd_filter db version))
           - modules_packages db (modulemd_filter db version))
   \<and> (\<forall>m p. m \<in> set (modulemd_filter db version) \<and> p \<in> set (packages db m) \<longrightarrow>
         packages_to_remove (resolve_module_packages db version (Some previous)) \<noteq> None
         \<and> (\<forall>s. packages_to_remove (resolve_module_packages db version (Some previous)) = Some s
                \<longrightarrow> p \<notin> s)
         \<and> (p \<in> content version \<longrightarrow>
              p \<in> content (version_out (resolve_module_packages db version (Some previous)))))"
proof -
  let ?cur = "modulemd_filter db version"
  let ?prev = "modulemd_filter db previous"
  let ?r = "resolve_module_packages db version (Some previous)"
  have rem: "packages_to_remove ?r = Some (removal_set db ?cur ?prev)"
    by (simp add: resolve_Some add_pass_sel)
  have kept: "p \<notin> removal_set db ?cur ?prev"
    if "m \<in> set ?cur" "p \<in> set (packages db m)" for m p
    using that by (auto simp: removal_set_eq modules_packages_Union)
  have stays: "p \<in> content (version_out ?r)"
    if "m \<in> set ?cur" "p \<in> set (packages db m)" "p \<in> content version" for m p
    using that kept [OF that(1,2)]
    by (simp add: resolve_Some add_pass_sel content_add_content content_remove_content
        set_package_filter)
  show ?thesis
    unfolding rem using kept stays by (auto simp: removal_set_eq)
qed

theorem resolve_conservation_witness:
  "102 \<in> set (modulemd_filter scenario_db scenario_next)
   \<and> 202 \<in> set (packages scenario_db 101) \<and> 202 \<in> set (packages scenario_db 102)
   \<and> 202 \<in> content scenario_next
   \<and> packages_to_remove (resolve_module_packages scenario_db scenario_next (Some scenario_previous))
       = Some {201}
   \<and> 202 \<in> content (version_out
        (resolve_module_packages scenario_db scenario_next (Some scenario_previous)))"
proof -
  have m: "102 \<in> set (modulemd_filter scenario_db scenario_next)"
    by (simp add: modulemd_filter_def content_filter_def scenario_db_def scenario_next_def)
  have p: "202 \<in> set (packages scenario_db 101)" "202 \<in> set (packages scenario_db 102)"
    by (simp_all add: scenario_db_def)
  have c: "202 \<in> content scenario_next"
    by (simp add: scenario_next_def)
  have cur: "modulemd_filter scenario_db scenario_next = [102]"
    by (simp add: modulemd_filter_def content_filter_def scenario_db_def scenario_next_def)
  have prev: "modulemd_filter scenario_db scenario_previous = [101]"
    by (simp add: modulemd_filter_def content_filter_def scenario_db_def scenario_previous_def)
  have mp: "modules_packages scenario_db [101] = {201, 202}" "modules_packages scenario_db [102] = {202, 203}"
    by (auto simp: modules_packages_def scenario_db_def)
  have s: "modules_packages scenario_db
             (difference (modulemd_filter scenario_db scenario_previous)
                (modulemd_filter scenario_db scenario_next))
           - modules_packages scenario_db (modulemd_filter scenario_db scenario_next) = {201}"
    unfolding cur prev by (auto simp: difference_def mp)
  from resolve_conservation [of scenario_db scenario_next scenario_previous] m p c
  show ?thesis unfolding s by blast
qed





text \<open>
  Claim C6 (idempotence). Reconciling against a previous version with the same modules
  gives an empty \<open>packages_to_add\<close>, an empty \<open>packages_to_remove\<close> and leaves the
  content of the version as it was.
\<close>

theorem resolve_idempotent:
  assumes "set (modulemd_filter db version) = set (modulemd_filter db previous)"
  shows "packages_to_add (resolve_module_packages db version (Some previous)) = {}
   \<and> packages_to_remove (resolve_module_packages db version (Some previous)) = Some {}
   \<and> content (version_out (resolve_module_packages db version (Some previous))) = content version"
proof -
  have d1: "difference (modulemd_filter db version) (modulemd_filter db previous) = []"
    using assms by (simp add: difference_def)
  have d2: "difference (modulemd_filter db previous) (modulemd_filter db version) = []"
    using assms by (simp add: difference_def)
  have e: "modules_packages db [] = {}"
    by (simp add: modules_packages_def)
  show ?thesis
    by (simp add: resolve_Some add_pass_sel removal_set_eq d1 d2 e content_add_content
        content_remove_content package_filter_def)
qed

theorem resolve_idempotent_witness:
  "set (modulemd_filter scenario_db scenario_next) = set (modulemd_filter scenario_db scenario_same)
   \<and> packages_to_add (resolve_module_packages scenario_db scenario_next (Some scenario_same)) = {}
   \<and> packages_to_remove (resolve_module_packages scenario_db scenario_next (Some scenario_same)) = Some {}
   \<and> content (version_out (resolve_module_packages scenario_db scenario_next (Some scenario_same)))
       = {102, 201, 202}"
proof -
  have h: "set (modulemd_filter scenario_db scenario_next) = set (modulemd_filter scenario_db scenario_same)"
    by (simp add: scenario_modules)
  have n: "content scenario_next = {102, 201, 202}"
    by (simp add: scenario_next_def)
  from resolve_idempotent [OF h] h show ?thesis
    unfolding n by simp
qed

text \<open>
  Claim C10 (frame). Where every row of \<^verbatim>\<open>Package.objects\<close> has the package type,
  content of any other type is in the version after the call exactly when it was in it
  before, and every queryset given to \<^verbatim>\<open>remove_content\<close> or \<^verbatim>\<open>add_content\<close> holds
  packages only.
\<close>

theorem resolve_frame:
  assumes "\<forall>p \<in> set (package_objects db). pulp_type db p = ''rpm.package''"
  shows "(\<forall>c. pulp_type db c \<noteq> ''rpm.package'' \<longrightarrow>
            (c \<in> content (version_out (resolve_module_packages db version previous_version))
               \<longleftrightarrow> c \<in> content version))
   \<and> (\<forall>qs. (Remove_content qs \<in> set (drop (length (calls version))
                  (calls (version_out (resolve_module_packages db version previous_version))))
            \<or> Add_content qs \<in> set (drop (length (calls version))
                  (calls (version_out (resolve_module_packages db version previous_version)))))
           \<longrightarrow> (\<forall>c \<in> set qs. c \<in> set (package_objects db) \<and> pulp_type db c = ''rpm.package''))"
proof (cases previous_version)
  case None
  then show ?thesis
    using assms
    by (auto simp: resolve_None add_pass_sel content_add_content calls_add_content
        set_package_filter)
next
  case (Some previous)
  then show ?thesis
    using assms
    by (auto simp: resolve_Some add_pass_sel content_add_content calls_add_content
        content_remove_content calls_remove_content set_package_filter)
qed

theorem resolve_frame_witness:
  "pulp_type scenario_db 101 \<noteq> ''rpm.package'' \<and> pulp_type scenario_db 102 \<noteq> ''rpm.package''
   \<and> 102 \<in> content scenario_next
   \<and> 102 \<in> content (version_out
        (resolve_module_packages scenario_db scenario_next (Some scenario_previous)))
   \<and> 101 \<notin> content scenario_next
   \<and> 101 \<notin> content (version_out
        (resolve_module_packages scenario_db scenario_next (Some scenario_previous)))"
proof -
  have h: "\<forall>p \<in> set (package_objects scenario_db). pulp_type scenario_db p = ''rpm.package''"
    by (simp add: scenario_db_def)
  have t: "pulp_type scenario_db 101 \<noteq> ''rpm.package''" "pulp_type scenario_db 102 \<noteq> ''rpm.package''"
    by (simp_all add: scenario_db_def)
  have c: "102 \<in> content scenario_next" "101 \<notin> content scenario_next"
    by (simp_all add: scenario_next_def)
  from resolve_frame [OF h, of scenario_next "Some scenario_previous"] t c
  show ?thesis by blast
qed

section \<open>Properties of the snippet materialiser\<close>

lemma create_snippet_success:
  assumes "fault (env (clock w)) = No_fault" and "files w (tmp_name (env (clock w))) = None"
  shows "create_snippet lib env s w =
           (Inr \<lparr>artifact_file = tmp_name (env (clock w)), sha256 = hexdigest lib s\<rparr>,
            \<lparr>files = (files w)(tmp_name (env (clock w)) \<mapsto> s), clock = Suc (clock w)\<rparr>)"
  using assms by (simp add: create_snippet_def init_and_validate_def Let_def)

lemma create_snippet_Inr:
  assumes "create_snippet lib env s w = (Inr a, w')"
  shows "a = \<lparr>artifact_file = tmp_name (env (clock w)), sha256 = hexdigest lib s\<rparr>
         \<and> files w (tmp_name (env (clock w))) = None
         \<and> w' = \<lparr>files = (files w)(tmp_name (env (clock w)) \<mapsto> s), clock = Suc (clock w)\<rparr>"
  using assms
  by (auto simp: create_snippet_def init_and_validate_def Let_def
      split: if_splits fault.splits)

text \<open>
  Claim C7 (snippet determinism). Two runs of \<^verbatim>\<open>_create_snippet\<close> on the same text
  that both return, in any two worlds and under any two choices of temporary names,
  return artifacts with the same digest: the digest of the text.
\<close>

theorem create_snippet_deterministic:
  assumes "create_snippet lib env1 s w1 = (Inr a1, w1')"
    and "create_snippet lib env2 s w2 = (Inr a2, w2')"
  shows "sha256 a1 = sha256 a2 \<and> sha256 a1 = hexdigest lib s"
  using create_snippet_Inr [OF assms(1)] create_snippet_Inr [OF assms(2)] by simp

theorem create_snippet_deterministic_witness:
  "create_snippet demo_library demo_env ''data'' empty_world =
     (Inr \<lparr>artifact_file = ''tmp'', sha256 = ''sha256 of data''\<rparr>,
      \<lparr>files = [''tmp'' \<mapsto> ''data''], clock = 1\<rparr>)
   \<and> create_snippet demo_library demo_env ''data'' other_world =
     (Inr \<lparr>artifact_file = ''tmpx'', sha256 = ''sha256 of data''\<rparr>,
      \<lparr>files = [''tmp'' \<mapsto> ''old'', ''tmpx'' \<mapsto> ''data''], clock = 2\<rparr>)
   \<and> sha256 \<lparr>artifact_file = ''tmp'', sha256 = ''sha256 of data''\<rparr>
       = sha256 \<lparr>artifact_file = ''tmpx'', sha256 = ''sha256 of data''\<rparr>"
proof -
  have r1: "create_snippet demo_library demo_env ''data'' empty_world =
     (Inr \<lparr>artifact_file = ''tmp'', sha256 = ''sha256 of data''\<rparr>,
      \<lparr>files = [''tmp'' \<mapsto> ''data''], clock = 1\<rparr>)"
    by (simp add: create_snippet_def init_and_validate_def Let_def demo_library_def demo_env_def
        empty_world_def)
  have r2: "create_snippet demo_library demo_env ''data'' other_world =
     (Inr \<lparr>artifact_file = ''tmpx'', sha256 = ''sha256 of data''\<rparr>,
      \<lparr>files = [''tmp'' \<mapsto> ''old'', ''tmpx'' \<mapsto> ''data''], clock = 2\<rparr>)"
    by (simp add: create_snippet_def init_and_validate_def Let_def demo_library_def demo_env_def
        other_world_def)
  from create_snippet_deterministic [OF r1 r2] r1 r2 show ?thesis by simp
qed

text \<open>
  Claim C4 (temporary-artifact cleanup), as the code has it. The function never removes
  the temporary file: when the file could not be created the file system is unchanged;
  otherwise the file is still there on every exit path, failures included, no other file
  is touched, and on success the file holds exactly the snippet text and is the file of
  the returned artifact.
\<close>

theorem create_snippet_keeps_file:
  "(if fault (env (clock w)) = Tempfile_fault \<or> files w (tmp_name (env (clock w))) \<noteq> None
    then fst (create_snippet lib env s w) = Inl IOFailure
         \<and> files (snd (create_snippet lib env s w)) = files w
    else files (snd (create_snippet lib env s w)) (tmp_name (env (clock w))) \<noteq> None
         \<and> (\<forall>p. p \<noteq> tmp_name (env (clock w)) \<longrightarrow>
               files (snd (create_snippet lib env s w)) p = files w p)
         \<and> (\<forall>a. fst (create_snippet lib env s w) = Inr a \<longrightarrow>
               artifact_file a = tmp_name (env (clock w))
               \<and> files (snd (create_snippet lib env s w)) (artifact_file a) = Some s))"
  by (auto simp: create_snippet_def init_and_validate_def Let_def split: fault.splits)

theorem create_snippet_keeps_file_witness:
  "fault (failing_env (clock empty_world)) \<noteq> Tempfile_fault
   \<and> files empty_world (tmp_name (failing_env (clock empty_world))) = None
   \<and> files (snd (create_snippet demo_library failing_env ''data'' empty_world))
        (tmp_name (failing_env (clock empty_world))) \<noteq> None"
proof -
  have h: "fault (failing_env (clock empty_world)) \<noteq> Tempfile_fault"
    "files empty_world (tmp_name (failing_env (clock empty_world))) = None"
    by (simp_all add: failing_env_def empty_world_def)
  from create_snippet_keeps_file [of failing_env empty_world demo_library "''data''"] h
  show ?thesis by simp
qed

text \<open>
  Against claim C4 as stated: when the write fails after two characters, the call raises
  and leaves the temporary file behind with the two characters in it.
\<close>

theorem create_snippet_cleanup_counterexample:
  "files empty_world ''tmp'' = None
   \<and> fst (create_snippet demo_library failing_env ''data'' empty_world) = Inl IOFailure
   \<and> files (snd (create_snippet demo_library failing_env ''data'' empty_world)) ''tmp'' = Some ''da''"
  by (simp add: create_snippet_def Let_def failing_env_def empty_world_def)

section \<open>Properties of the decomposition\<close>

lemma map_of_clause_update:
  "map_of (clause_update dep d) n =
     (if n \<in> set (get_runtime_modules dep) then Some (get_runtime_streams dep n) else map_of d n)"
proof -
  have "map_of (fold (\<lambda>dependency acc. AList.update dependency (get_runtime_streams dep dependency) acc) ms d) n =
          (if n \<in> set ms then Some (get_runtime_streams dep n) else map_of d n)" for ms
    by (induction ms arbitrary: d) (auto simp: update_conv')
  then show ?thesis by (simp add: clause_update_def)
qed

lemma distinct_clause_update:
  "distinct (map fst d) \<Longrightarrow> distinct (map fst (clause_update dep d))"
proof -
  have "distinct (map fst d) \<Longrightarrow>
        distinct (map fst (fold (\<lambda>dependency acc. AList.update dependency (get_runtime_streams dep dependency) acc) ms d))" for ms
    by (induction ms arbitrary: d) (auto simp: distinct_update)
  then show "distinct (map fst d) \<Longrightarrow> distinct (map fst (clause_update dep d))"
    by (simp add: clause_update_def)
qed

lemma distinct_fold_clause_update:
  "distinct (map fst d) \<Longrightarrow> distinct (map fst (fold clause_update deps d))"
  by (induction deps arbitrary: d) (auto simp: distinct_clause_update)

lemma map_of_fold_skip:
  "\<forall>dep \<in> set post. n \<notin> set (get_runtime_modules dep) \<Longrightarrow>
   map_of (fold clause_update post d) n = map_of d n"
  by (induction post arbitrary: d) (auto simp: map_of_clause_update)

text \<open>
  Claim C5 (dependency overwrite). When a runtime module name is listed by a dependency
  clause and by no later clause of the stream, the dependency dictionary of the record
  maps the name to exactly the runtime streams of that clause, whatever earlier clauses
  gave for it; the name has one entry, and the dictionary is what the record serialises.
\<close>

theorem dependencies_last_clause_wins:
  assumes "get_dependencies s = pre @ dep # post"
    and "name \<in> set (get_runtime_modules dep)"
    and "\<forall>later \<in> set post. name \<notin> set (get_runtime_modules later)"
  shows "map_of (stream_dependencies (get_dependencies s)) name = Some (get_runtime_streams dep name)
     \<and> distinct (map fst (stream_dependencies (get_dependencies s)))
     \<and> MODULE_ATTR_DEPENDENCIES (stream_dict lib s a) =
         json_dumps_dict lib (stream_dependencies (get_dependencies s))"
proof -
  have "map_of (stream_dependencies (pre @ dep # post)) name =
          map_of (clause_update dep (fold clause_update pre [])) name"
    using assms(3) by (simp add: stream_dependencies_def map_of_fold_skip)
  also have "\<dots> = Some (get_runtime_streams dep name)"
    using assms(2) by (simp add: map_of_clause_update)
  finally have m: "map_of (stream_dependencies (get_dependencies s)) name =
                     Some (get_runtime_streams dep name)"
    by (simp add: assms(1))
  have d: "distinct (map fst (stream_dependencies (get_dependencies s)))"
    by (simp add: stream_dependencies_def distinct_fold_clause_update)
  show ?thesis using m d by (simp add: stream_dict_def)
qed

theorem dependencies_last_clause_wins_witness:
  "get_dependencies gorilla_stable = [platform_first] @ platform_last # []
   \<and> ''platform'' \<in> set (get_runtime_modules platform_first)
   \<and> ''platform'' \<in> set (get_runtime_modules platform_last)
   \<and> get_runtime_streams platform_first ''platform'' = [''f26'']
   \<and> map_of (stream_dependencies (get_dependencies gorilla_stable)) ''platform'' = Some [''f27'', ''f28'']"
proof -
  have h1: "get_dependencies gorilla_stable = [platform_first] @ platform_last # []"
    by (simp add: gorilla_stable_def)
  have h2: "''platform'' \<in> set (get_runtime_modules platform_last)"
    by (simp add: platform_last_def)
  have h3: "\<forall>later \<in> set []. ''platform'' \<notin> set (get_runtime_modules later)"
    by simp
  have f: "''platform'' \<in> set (get_runtime_modules platform_first)"
      "get_runtime_streams platform_first ''platform'' = [''f26'']"
      "get_runtime_streams platform_last ''platform'' = [''f27'', ''f28'']"
    by (simp_all add: platform_first_def platform_last_def)
  from dependencies_last_clause_wins [OF h1 h2 h3] h1 h2 f
  show ?thesis by simp
qed

lemma parse_streams_returns:
  "parse_streams lib env ss w ret = (Inr r, w') \<Longrightarrow>
   \<exists>recs. r = ret @ recs \<and> list_all2 (record_of lib) recs ss"
proof (induction ss arbitrary: w ret)
  case Nil
  then show ?case by simp
next
  case (Cons s ss)
  from Cons.prems obtain a w1 where
    c: "create_snippet lib env (dump_stream lib s) w = (Inr a, w1)"
    and p: "parse_streams lib env ss w1 (ret @ [stream_dict lib s a]) = (Inr r, w')"
    by (auto split: prod.splits sum.splits)
  from Cons.IH [OF p] obtain recs where
    r: "r = (ret @ [stream_dict lib s a]) @ recs" and l: "list_all2 (record_of lib) recs ss"
    by blast
  have "record_of lib (stream_dict lib s a) s"
    using create_snippet_Inr [OF c] by (simp add: record_of_def stream_dict_def)
  with r l show ?case by simp
qed


lemma parse_streams_succeeds:
  "env_ok env (dom (files w)) (clock w) (length ss + n) \<Longrightarrow>
   \<exists>r w'. parse_streams lib env ss w ret = (Inr r, w')
     \<and> env_ok env (dom (files w')) (clock w') n"
proof (induction ss arbitrary: w ret)
  case Nil
  then show ?case by simp
next
  case (Cons s ss)
  let ?w1 = "\<lparr>files = (files w)(tmp_name (env (clock w)) \<mapsto> dump_stream lib s),
              clock = Suc (clock w)\<rparr>"
  from Cons.prems have f: "fault (env (clock w)) = No_fault"
    and n: "files w (tmp_name (env (clock w))) = None"
    and ok: "env_ok env (dom (files ?w1)) (clock ?w1) (length ss + n)"
    by (auto simp: domIff)
  have c: "create_snippet lib env (dump_stream lib s) w =
             (Inr \<lparr>artifact_file = tmp_name (env (clock w)),
                   sha256 = hexdigest lib (dump_stream lib s)\<rparr>, ?w1)"
    using f n by (rule create_snippet_success)
  from Cons.IH [OF ok] show ?case
    by (simp add: c)
qed

lemma parse_modules_returns:
  "parse_modules lib env idx ms w ret = (Inr r, w') \<Longrightarrow>
   \<exists>recs. r = ret @ recs \<and> list_all2 (record_of lib) recs (all_streams idx ms)"
proof (induction ms arbitrary: w ret)
  case Nil
  then show ?case by (simp add: all_streams_def)
next
  case (Cons m ms)
  from Cons.prems obtain h r1 w1 where
    g: "get_module idx m = Some h"
    and p: "parse_streams lib env (get_all_streams h) w ret = (Inr r1, w1)"
    and q: "parse_modules lib env idx ms w1 r1 = (Inr r, w')"
    by (auto split: option.splits prod.splits sum.splits)
  from parse_streams_returns [OF p] obtain recs1 where
    r1: "r1 = ret @ recs1" and l1: "list_all2 (record_of lib) recs1 (get_all_streams h)"
    by blast
  from Cons.IH [OF q] obtain recs2 where
    r2: "r = r1 @ recs2" and l2: "list_all2 (record_of lib) recs2 (all_streams idx ms)"
    by blast
  have "list_all2 (record_of lib) (recs1 @ recs2) (all_streams idx (m # ms))"
    using l1 l2 g by (simp add: all_streams_def streams_of_def list_all2_appendI)
  with r1 r2 show ?case by simp
qed

lemma parse_modules_succeeds:
  "\<forall>m \<in> set ms. get_module idx m \<noteq> None \<Longrightarrow>
   env_ok env (dom (files w)) (clock w) (length (all_streams idx ms)) \<Longrightarrow>
   \<exists>r w'. parse_modules lib env idx ms w ret = (Inr r, w')"
proof (induction ms arbitrary: w ret)
  case Nil
  then show ?case by simp
next
  case (Cons m ms)
  from Cons.prems(1) obtain h where g: "get_module idx m = Some h" by auto
  have len: "length (all_streams idx (m # ms)) =
               length (get_all_streams h) + length (all_streams idx ms)"
    using g by (simp add: all_streams_def streams_of_def)
  from Cons.prems(2) have
    "env_ok env (dom (files w)) (clock w)
       (length (get_all_streams h) + length (all_streams idx ms))"
    by (simp only: len)
  from parse_streams_succeeds [OF this] obtain r1 w1 where
    p: "parse_streams lib env (get_all_streams h) w ret = (Inr r1, w1)"
    and ok: "env_ok env (dom (files w1)) (clock w1) (length (all_streams idx ms))"
    by blast
  from Cons.prems(1) have "\<forall>m \<in> set ms. get_module idx m \<noteq> None" by simp
  from Cons.IH [OF this ok] show ?case
    by (simp add: g p)
qed

lemma dumps_empty: "json_dumps_list lib [] = ''[]''"
  by (simp add: json_dumps_list_def)

lemma demo_gorilla:
  "get_module demo_index ''gorilla'' =
     Some \<lparr>get_module_name = ''gorilla'',
           get_all_streams = [gorilla_stable, gorilla_unstable],
           get_defaults = Some gorilla_defaults\<rparr>"
  by (simp add: demo_index_def)

lemma demo_ghost:
  "get_module demo_index ''ghost'' =
     Some \<lparr>get_module_name = ''ghost'', get_all_streams = [], get_defaults = None\<rparr>"
  by (simp add: demo_index_def)

text \<open>
  Claim C8 (no stream dropped, empty artifact lists). When every requested name resolves
  and every snippet can be written, \<^verbatim>\<open>parse_modulemd\<close> returns one record per stream
  the index reports, in order, each built from its stream; a stream whose artifact list is
  empty has a record whose artifacts attribute is the JSON text of the empty array.
\<close>

theorem parse_modulemd_every_stream:
  assumes "\<forall>m \<in> set module_names. get_module idx m \<noteq> None"
    and "env_ok env (dom (files w)) (clock w) (length (all_streams idx module_names))"
  shows "\<exists>recs w'. parse_modulemd lib env module_names idx w = (Inr recs, w')
     \<and> list_all2 (record_of lib) recs (all_streams idx module_names)
     \<and> length recs = length (all_streams idx module_names)
     \<and> (\<forall>i < length recs.
           MODULE_ATTR_NAME (recs ! i) = props_module_name (all_streams idx module_names ! i)
         \<and> MODULE_ATTR_STREAM (recs ! i) = props_stream_name (all_streams idx module_names ! i)
         \<and> MODULE_ATTR_ARTIFACTS (recs ! i) =
             json_dumps_list lib (get_rpm_artifacts (all_streams idx module_names ! i))
         \<and> (get_rpm_artifacts (all_streams idx module_names ! i) = [] \<longrightarrow>
              MODULE_ATTR_ARTIFACTS (recs ! i) = ''[]''))"
proof -
  from parse_modules_succeeds [OF assms] obtain recs w' where
    p: "parse_modules lib env idx module_names w [] = (Inr recs, w')"
    by blast
  from parse_modules_returns [OF p] have
    l: "list_all2 (record_of lib) recs (all_streams idx module_names)"
    by simp
  have len: "length recs = length (all_streams idx module_names)"
    using l by (rule list_all2_lengthD)
  have each: "MODULE_ATTR_NAME (recs ! i) = props_module_name (all_streams idx module_names ! i)
         \<and> MODULE_ATTR_STREAM (recs ! i) = props_stream_name (all_streams idx module_names ! i)
         \<and> MODULE_ATTR_ARTIFACTS (recs ! i) =
             json_dumps_list lib (get_rpm_artifacts (all_streams idx module_names ! i))
         \<and> (get_rpm_artifacts (all_streams idx module_names ! i) = [] \<longrightarrow>
              MODULE_ATTR_ARTIFACTS (recs ! i) = ''[]'')"
    if "i < length recs" for i
  proof -
    have "record_of lib (recs ! i) (all_streams idx module_names ! i)"
      using l that by (rule list_all2_nthD)
    then obtain a where "recs ! i = stream_dict lib (all_streams idx module_names ! i) a"
      unfolding record_of_def by blast
    then show ?thesis
      by (simp add: stream_dict_def dumps_empty)
  qed
  show ?thesis
    using p l len each by (simp add: parse_modulemd_def dumps_empty)
qed

theorem parse_modulemd_every_stream_witness:
  "all_streams demo_index [''gorilla''] = [gorilla_stable, gorilla_unstable]
   \<and> get_rpm_artifacts gorilla_unstable = []
   \<and> (\<exists>recs w'. parse_modulemd demo_library demo_env [''gorilla''] demo_index empty_world
                    = (Inr recs, w')
         \<and> length recs = 2
         \<and> MODULE_ATTR_STREAM (recs ! 0) = ''stable''
         \<and> MODULE_ATTR_STREAM (recs ! 1) = ''unstable''
         \<and> MODULE_ATTR_ARTIFACTS (recs ! 1) = ''[]'')"
proof -
  have s: "all_streams demo_index [''gorilla''] = [gorilla_stable, gorilla_unstable]"
    by (simp add: all_streams_def streams_of_def demo_gorilla)
  have h1: "\<forall>m \<in> set [''gorilla'']. get_module demo_index m \<noteq> None"
    by (simp add: demo_gorilla)
  have h2: "env_ok demo_env (dom (files empty_world)) (clock empty_world)
              (length (all_streams demo_index [''gorilla'']))"
    unfolding s by (simp add: demo_env_def empty_world_def)
  have e: "get_rpm_artifacts gorilla_unstable = []"
      "props_stream_name gorilla_stable = ''stable''"
      "props_stream_name gorilla_unstable = ''unstable''"
    by (simp_all add: gorilla_unstable_def gorilla_stable_def)
  from parse_modulemd_every_stream [OF h1 h2, of demo_library]
  obtain recs w' where
    p: "parse_modulemd demo_library demo_env [''gorilla''] demo_index empty_world = (Inr recs, w')"
    and l: "length recs = length (all_streams demo_index [''gorilla''])"
    and each: "\<forall>i < length recs.
           MODULE_ATTR_NAME (recs ! i) = props_module_name (all_streams demo_index [''gorilla''] ! i)
         \<and> MODULE_ATTR_STREAM (recs ! i) = props_stream_name (all_streams demo_index [''gorilla''] ! i)
         \<and> MODULE_ATTR_ARTIFACTS (recs ! i) =
             json_dumps_list demo_library (get_rpm_artifacts (all_streams demo_index [''gorilla''] ! i))
         \<and> (get_rpm_artifacts (all_streams demo_index [''gorilla''] ! i) = [] \<longrightarrow>
              MODULE_ATTR_ARTIFACTS (recs ! i) = ''[]'')"
    by blast
  have len: "length recs = 2" using l by (simp add: s)
  have i0: "0 < length recs" and i1: "1 < length recs"
    using len by simp_all
  from each [rule_format, OF i0] have "MODULE_ATTR_STREAM (recs ! 0) = ''stable''"
    by (simp add: s e)
  moreover from each [rule_format, OF i1] have "MODULE_ATTR_STREAM (recs ! 1) = ''unstable''"
    "MODULE_ATTR_ARTIFACTS (recs ! 1) = ''[]''"
    by (simp_all add: s e dumps_empty)
  ultimately show ?thesis
    using s e p len by blast
qed

lemma parse_defaults_loop_returns:
  "parse_defaults_loop lib env idx ms w ret = (Inr r, w') \<Longrightarrow>
   \<forall>m \<in> set ms. resolves idx m \<Longrightarrow>
   \<exists>recs. r = ret @ recs
     \<and> map MODULEDEFAULTS_ATTR_MODULE recs = filter (has_defaults idx) ms"
proof (induction ms arbitrary: w ret)
  case Nil
  then show ?case by simp
next
  case (Cons m ms)
  from Cons.prems(2) obtain h where g: "get_module idx m = Some h" and nm: "get_module_name h = m"
    by (auto simp: resolves_def split: option.splits)
  from Cons.prems(2) have rest: "\<forall>m \<in> set ms. resolves idx m" by simp
  show ?case
  proof (cases "get_defaults h")
    case None
    with Cons.prems(1) g have "parse_defaults_loop lib env idx ms w ret = (Inr r, w')"
      by simp
    moreover have "\<not> has_defaults idx m"
      using g None by (simp add: has_defaults_def)
    ultimately show ?thesis
      using Cons.IH [OF _ rest] by simp
  next
    case (Some d)
    have hd: "has_defaults idx m"
      using g Some by (simp add: has_defaults_def)
    from Some Cons.prems(1) g obtain a w1 where
      p: "parse_defaults_loop lib env idx ms w1 (ret @ [defaults_record lib h d a]) = (Inr r, w')"
      by (auto split: prod.splits sum.splits)
    from Cons.IH [OF p rest] obtain recs where
      r: "r = (ret @ [defaults_record lib h d a]) @ recs"
      and f: "map MODULEDEFAULTS_ATTR_MODULE recs = filter (has_defaults idx) ms"
      by blast
    have "MODULEDEFAULTS_ATTR_MODULE (defaults_record lib h d a) = m"
      using nm by (simp add: defaults_record_def Let_def)
    with r f hd show ?thesis
      by simp
  qed
qed

lemma parse_defaults_loop_succeeds:
  "\<forall>m \<in> set ms. resolves idx m \<Longrightarrow>
   env_ok env (dom (files w)) (clock w) (length (filter (has_defaults idx) ms)) \<Longrightarrow>
   \<exists>r w'. parse_defaults_loop lib env idx ms w ret = (Inr r, w')"
proof (induction ms arbitrary: w ret)
  case Nil
  then show ?case by simp
next
  case (Cons m ms)
  from Cons.prems(1) obtain h where g: "get_module idx m = Some h"
    by (auto simp: resolves_def split: option.splits)
  from Cons.prems(1) have rest: "\<forall>m \<in> set ms. resolves idx m" by simp
  show ?case
  proof (cases "get_defaults h")
    case None
    have "\<not> has_defaults idx m"
      using g None by (simp add: has_defaults_def)
    with Cons.prems(2) have
      "env_ok env (dom (files w)) (clock w) (length (filter (has_defaults idx) ms))"
      by simp
    from Cons.IH [OF rest this] show ?thesis
      using g None by simp
  next
    case (Some d)
    let ?w1 = "\<lparr>files = (files w)(tmp_name (env (clock w)) \<mapsto> dump_defaults lib d),
                clock = Suc (clock w)\<rparr>"
    have hd: "has_defaults idx m"
      using g Some by (simp add: has_defaults_def)
    from Cons.prems(2) hd have f: "fault (env (clock w)) = No_fault"
      and n: "files w (tmp_name (env (clock w))) = None"
      and ok: "env_ok env (dom (files ?w1)) (clock ?w1) (length (filter (has_defaults idx) ms))"
      by (auto simp: domIff)
    have c: "create_snippet lib env (dump_defaults lib d) w =
               (Inr \<lparr>artifact_file = tmp_name (env (clock w)),
                     sha256 = hexdigest lib (dump_defaults lib d)\<rparr>, ?w1)"
      using f n by (rule create_snippet_success)
    from Cons.IH [OF rest ok] show ?thesis
      using g Some by (simp add: c)
  qed
qed

text \<open>
  Claim C9 (defaults skip). When every key of the default streams resolves to the module
  of that name and the snippets of the modules with defaults can be written,
  \<^verbatim>\<open>parse_defaults\<close> returns, and its records are, in order, those of the keys whose
  defaults object is present: a key whose defaults object is absent gets no record and
  raises nothing.
\<close>

theorem parse_defaults_skips_absent:
  assumes "\<forall>m \<in> set (map fst (get_default_streams idx)). resolves idx m"
    and "env_ok env (dom (files w)) (clock w)
           (length (filter (has_defaults idx) (map fst (get_default_streams idx))))"
  shows "\<exists>recs w'. parse_defaults lib env idx w = (Inr recs, w')
     \<and> map MODULEDEFAULTS_ATTR_MODULE recs =
         filter (has_defaults idx) (map fst (get_default_streams idx))
     \<and> (\<forall>m \<in> set (map fst (get_default_streams idx)).
           \<not> has_defaults idx m \<longrightarrow> m \<notin> set (map MODULEDEFAULTS_ATTR_MODULE recs))
     \<and> (\<forall>r \<in> set recs. has_defaults idx (MODULEDEFAULTS_ATTR_MODULE r))"
proof -
  let ?keys = "map fst (get_default_streams idx)"
  from parse_defaults_loop_succeeds [OF assms] obtain recs w' where
    p: "parse_defaults_loop lib env idx ?keys w [] = (Inr recs, w')"
    by blast
  from parse_defaults_loop_returns [OF p assms(1)] have
    m: "map MODULEDEFAULTS_ATTR_MODULE recs = filter (has_defaults idx) ?keys"
    by simp
  have a: "\<forall>m \<in> set ?keys. \<not> has_defaults idx m \<longrightarrow> m \<notin> set (map MODULEDEFAULTS_ATTR_MODULE recs)"
    unfolding m by simp
  have b: "\<forall>r \<in> set recs. has_defaults idx (MODULEDEFAULTS_ATTR_MODULE r)"
  proof
    fix r assume "r \<in> set recs"
    then have "MODULEDEFAULTS_ATTR_MODULE r \<in> set (map MODULEDEFAULTS_ATTR_MODULE recs)"
      by simp
    then show "has_defaults idx (MODULEDEFAULTS_ATTR_MODULE r)"
      unfolding m by simp
  qed
  show ?thesis
    using p m a b unfolding parse_defaults_def by blast
qed

theorem parse_defaults_skips_absent_witness:
  "map fst (get_default_streams demo_index) = [''ghost'', ''gorilla'']
   \<and> get_module demo_index ''ghost'' =
       Some \<lparr>get_module_name = ''ghost'', get_all_streams = [], get_defaults = None\<rparr>
   \<and> (\<exists>recs w'. parse_defaults demo_library demo_env demo_index empty_world = (Inr recs, w')
         \<and> map MODULEDEFAULTS_ATTR_MODULE recs = [''gorilla''])"
proof -
  have k: "map fst (get_default_streams demo_index) = [''ghost'', ''gorilla'']"
    by (simp add: demo_index_def)
  have hd: "\<not> has_defaults demo_index ''ghost''" "has_defaults demo_index ''gorilla''"
    by (simp_all add: has_defaults_def demo_gorilla demo_ghost)
  have h1: "\<forall>m \<in> set (map fst (get_default_streams demo_index)). resolves demo_index m"
    unfolding k by (simp add: resolves_def demo_gorilla demo_ghost)
  have h2: "env_ok demo_env (dom (files empty_world)) (clock empty_world)
              (length (filter (has_defaults demo_index) (map fst (get_default_streams demo_index))))"
    unfolding k by (simp add: hd demo_env_def empty_world_def)
  from parse_defaults_skips_absent [OF h1 h2, of demo_library]
  obtain recs w' where
    "parse_defaults demo_library demo_env demo_index empty_world = (Inr recs, w')"
    "map MODULEDEFAULTS_ATTR_MODULE recs =
       filter (has_defaults demo_index) (map fst (get_default_streams demo_index))"
    by blast
  then show ?thesis
    using k demo_ghost hd by auto
qed

end
